theory Spec2Isabelle
  imports Main "HOL-Library.Word"
begin

unbundle bit_operations_syntax

section \<open>The data model of main.go\<close>

text \<open>
  \<^verbatim>\<open>type TOTPEntry struct { Name string; Secret string }\<close> and
  \<^verbatim>\<open>type TOTPData struct { Entries []TOTPEntry }\<close>.
\<close>

record TOTPEntry =
  Name :: string
  Secret :: string

record TOTPData =
  Entries :: "TOTPEntry list"

section \<open>Strings in the JSON file\<close>

text \<open>
  A Go string is a sequence of bytes. \<^verbatim>\<open>json.MarshalIndent\<close> writes it as valid UTF-8: it
  walks the bytes with \<^verbatim>\<open>utf8.DecodeRuneInString\<close>, keeps every well-formed sequence of one
  to four bytes, and replaces every byte that starts none by U+FFFD, the bytes EF BF BD.
  \<^verbatim>\<open>json.Unmarshal\<close> does the same to the bytes of a string it reads. All other escapes of the
  JSON text are undone on reading.
\<close>

definition byte_in :: "nat \<Rightarrow> nat \<Rightarrow> char \<Rightarrow> bool" where
  "byte_in lo hi c = (lo \<le> of_char c \<and> (of_char c :: nat) \<le> hi)"

text \<open>The well-formed sequences of two, three and four bytes (the table of package utf8).\<close>

definition seq2 :: "char \<Rightarrow> char \<Rightarrow> bool" where
  "seq2 a b = (byte_in 0xC2 0xDF a \<and> byte_in 0x80 0xBF b)"

definition seq3 :: "char \<Rightarrow> char \<Rightarrow> char \<Rightarrow> bool" where
  "seq3 a b c =
     ((byte_in 0xE0 0xE0 a \<and> byte_in 0xA0 0xBF b \<or>
       byte_in 0xE1 0xEC a \<and> byte_in 0x80 0xBF b \<or>
       byte_in 0xED 0xED a \<and> byte_in 0x80 0x9F b \<or>
       byte_in 0xEE 0xEF a \<and> byte_in 0x80 0xBF b) \<and>
      byte_in 0x80 0xBF c)"

definition seq4 :: "char \<Rightarrow> char \<Rightarrow> char \<Rightarrow> char \<Rightarrow> bool" where
  "seq4 a b c d =
     ((byte_in 0xF0 0xF0 a \<and> byte_in 0x90 0xBF b \<or>
       byte_in 0xF1 0xF3 a \<and> byte_in 0x80 0xBF b \<or>
       byte_in 0xF4 0xF4 a \<and> byte_in 0x80 0x8F b) \<and>
      byte_in 0x80 0xBF c \<and> byte_in 0x80 0xBF d)"

definition replacement :: string where
  "replacement = [CHR 0xEF, CHR 0xBF, CHR 0xBD]"

fun toValidUTF8 :: "string \<Rightarrow> string" where
  "toValidUTF8 [] = []"
| "toValidUTF8 (a # s) =
     (if byte_in 0 0x7F a then a # toValidUTF8 s
      else case s of
             [] \<Rightarrow> replacement
           | b # s1 \<Rightarrow>
               if seq2 a b then a # b # toValidUTF8 s1
               else (case s1 of
                       [] \<Rightarrow> replacement @ toValidUTF8 s
                     | c # s2 \<Rightarrow>
                         if seq3 a b c then a # b # c # toValidUTF8 s2
                         else (case s2 of
                                 [] \<Rightarrow> replacement @ toValidUTF8 s
                               | d # s3 \<Rightarrow>
                                   if seq4 a b c d then a # b # c # d # toValidUTF8 s3
                                   else replacement @ toValidUTF8 s)))"

text \<open>An entry and a collection as the JSON text spells them.\<close>

definition json_entry :: "TOTPEntry \<Rightarrow> TOTPEntry" where
  "json_entry entry = \<lparr>Name = toValidUTF8 (Name entry), Secret = toValidUTF8 (Secret entry)\<rparr>"

definition json_data :: "TOTPData \<Rightarrow> TOTPData" where
  "json_data data = \<lparr>Entries = map json_entry (Entries data)\<rparr>"

section \<open>The data file\<close>

text \<open>
  The file \<^verbatim>\<open>totp.json\<close> as \<^verbatim>\<open>loadData\<close> observes it through \<^verbatim>\<open>os.Stat\<close>,
  \<^verbatim>\<open>os.Open\<close>, \<^verbatim>\<open>io.ReadAll\<close> and \<^verbatim>\<open>json.Unmarshal\<close>. A well-formed file is abstracted to
  the collection whose strings are the bytes that its JSON text spells. A file whose bytes
  \<^verbatim>\<open>json.Unmarshal\<close> rejects (among them every proper prefix of a document written by
  \<^verbatim>\<open>json.MarshalIndent\<close>, the empty file included) is \<open>Corrupt\<close>.
\<close>

datatype data_file =
    NoFile                \<comment> \<open>\<^verbatim>\<open>os.Stat\<close> returns an error\<close>
  | OpenError             \<comment> \<open>\<^verbatim>\<open>os.Stat\<close> succeeds, \<^verbatim>\<open>os.Open\<close> fails\<close>
  | ReadError             \<comment> \<open>the file opens, \<^verbatim>\<open>io.ReadAll\<close> fails\<close>
  | Corrupt               \<comment> \<open>the bytes are read, \<^verbatim>\<open>json.Unmarshal\<close> fails\<close>
  | Document TOTPData     \<comment> \<open>the bytes are a JSON text that spells this collection\<close>

text \<open>\<^verbatim>\<open>log.Fatalf\<close> writes the message to the log and ends the process with status 1.\<close>

datatype fatal = Fatal string

text \<open>
  \<^verbatim>\<open>os.WriteFile\<close> opens the file with \<^verbatim>\<open>O_WRONLY|O_CREATE|O_TRUNC\<close>, writes the bytes and
  closes it. What the operating system lets it do is an input of the model: the write
  goes through, the open fails (the file is as before), the write fails after the open
  truncated the file (a proper prefix of the new text remains), or the write is complete and
  closing the file reports an error.
\<close>

datatype write_result = Written | OpenFailed | WriteFailed | CloseFailed

section \<open>Loading and saving\<close>

text \<open>
  \<^verbatim>\<open>loadData\<close>: an error of \<^verbatim>\<open>os.Stat\<close> gives the empty collection; the strings of a
  document come back as \<^verbatim>\<open>json.Unmarshal\<close> reads them.
\<close>

fun loadData :: "data_file \<Rightarrow> fatal + TOTPData" where
  "loadData NoFile = Inr \<lparr>Entries = []\<rparr>"
| "loadData OpenError = Inl (Fatal ''Error reading data file'')"
| "loadData ReadError = Inl (Fatal ''Error reading file content'')"
| "loadData Corrupt = Inl (Fatal ''Error parsing data file'')"
| "loadData (Document d) = Inr (json_data d)"

text \<open>
  \<^verbatim>\<open>saveData\<close> returns the outcome and the file it leaves. \<^verbatim>\<open>json.MarshalIndent\<close> has no
  failing case on a \<^verbatim>\<open>TOTPData\<close> (string fields only), so the first \<^verbatim>\<open>log.Fatalf\<close> of the
  source has no branch here; the text it produces spells every string as valid UTF-8.
\<close>

fun saveData :: "write_result \<Rightarrow> TOTPData \<Rightarrow> data_file \<Rightarrow> (fatal + unit) \<times> data_file" where
  "saveData Written data f = (Inr (), Document (json_data data))"
| "saveData OpenFailed data f = (Inl (Fatal ''Error writing data file''), f)"
| "saveData WriteFailed data f = (Inl (Fatal ''Error writing data file''), Corrupt)"
| "saveData CloseFailed data f = (Inl (Fatal ''Error writing data file''), Document (json_data data))"

section \<open>The command-line operations\<close>

text \<open>The loop of \<^verbatim>\<open>createEntry\<close>: is there an entry with this name?\<close>

fun name_exists :: "string \<Rightarrow> TOTPEntry list \<Rightarrow> bool" where
  "name_exists name [] = False"
| "name_exists name (entry # rest) = (if Name entry = name then True else name_exists name rest)"

text \<open>
  \<^verbatim>\<open>createEntry\<close> has no return value: what it reports is the line it prints, or the
  \<^verbatim>\<open>log.Fatalf\<close> of \<^verbatim>\<open>loadData\<close> or \<^verbatim>\<open>saveData\<close>.
\<close>

definition createEntry ::
  "write_result \<Rightarrow> string \<Rightarrow> string \<Rightarrow> data_file \<Rightarrow> (fatal + string) \<times> data_file" where
  "createEntry w name secret f =
     (case loadData f of
        Inl e \<Rightarrow> (Inl e, f)
      | Inr data \<Rightarrow>
          if name_exists name (Entries data)
          then (Inr ''Entry with this name already exists.'', f)
          else (case saveData w (data\<lparr>Entries := Entries data @ [\<lparr>Name = name, Secret = secret\<rparr>]\<rparr>) f of
                  (Inl e, f') \<Rightarrow> (Inl e, f')
                | (Inr u, f') \<Rightarrow> (Inr ''Entry created successfully!'', f')))"

text \<open>
  The loop of \<^verbatim>\<open>removeEntry\<close> and \<^verbatim>\<open>removeEntryHTTP\<close>, with its two variables \<^verbatim>\<open>found\<close> and
  \<^verbatim>\<open>newEntries\<close>.
\<close>

fun remove_loop :: "string \<Rightarrow> TOTPEntry list \<Rightarrow> bool \<times> TOTPEntry list \<Rightarrow> bool \<times> TOTPEntry list" where
  "remove_loop name [] (found, newEntries) = (found, newEntries)"
| "remove_loop name (entry # rest) (found, newEntries) =
     (if Name entry \<noteq> name
      then remove_loop name rest (found, newEntries @ [entry])
      else remove_loop name rest (True, newEntries))"

datatype remove_output = NoEntryFound string | Removed string

definition removeEntry ::
  "write_result \<Rightarrow> string \<Rightarrow> data_file \<Rightarrow> (fatal + remove_output) \<times> data_file" where
  "removeEntry w name f =
     (case loadData f of
        Inl e \<Rightarrow> (Inl e, f)
      | Inr data \<Rightarrow>
          (case remove_loop name (Entries data) (False, []) of
             (found, newEntries) \<Rightarrow>
               if \<not> found then (Inr (NoEntryFound name), f)
               else (case saveData w (data\<lparr>Entries := newEntries\<rparr>) f of
                       (Inl e, f') \<Rightarrow> (Inl e, f')
                     | (Inr u, f') \<Rightarrow> (Inr (Removed name), f'))))"

section \<open>The HTTP handlers\<close>

datatype http_body =
    Text string                   \<comment> \<open>\<^verbatim>\<open>http.Error\<close> and \<^verbatim>\<open>fmt.Fprintf\<close>\<close>
  | CodeJSON string int           \<comment> \<open>the object with \<^verbatim>\<open>code\<close> and \<^verbatim>\<open>expires_in\<close>\<close>
  | EntriesJSON "TOTPEntry list"

record http_response =
  status :: nat
  body :: http_body

text \<open>\<^verbatim>\<open>http.Error\<close> sets the status and writes the message and a line feed.\<close>

definition http_Error :: "string \<Rightarrow> nat \<Rightarrow> http_response" where
  "http_Error msg code = \<lparr>status = code, body = Text (msg @ [CHR 0x0A])\<rparr>"

text \<open>A handler that only writes to the response leaves the status at 200.\<close>

definition http_OK :: "http_body \<Rightarrow> http_response" where
  "http_OK b = \<lparr>status = 200, body = b\<rparr>"

definition removeEntryHTTP ::
  "write_result \<Rightarrow> string \<Rightarrow> data_file \<Rightarrow> (fatal + http_response) \<times> data_file" where
  "removeEntryHTTP w name f =
     (case loadData f of
        Inl e \<Rightarrow> (Inl e, f)
      | Inr data \<Rightarrow>
          (case remove_loop name (Entries data) (False, []) of
             (found, newEntries) \<Rightarrow>
               if \<not> found
               then (Inr (http_Error ''No entry found with that name.'' 404), f)
               else (case saveData w (data\<lparr>Entries := newEntries\<rparr>) f of
                       (Inl e, f') \<Rightarrow> (Inl e, f')
                     | (Inr u, f') \<Rightarrow>
                         (Inr (http_OK (Text (''Entry '' @ [CHR 0x27] @ name @ [CHR 0x27] @
                                               '' has been removed.'' @ [CHR 0x0A]))),
                          f'))))"

text \<open>
  \<^verbatim>\<open>createEntryHTTP\<close>. The request body is \<open>None\<close> when \<^verbatim>\<open>json.NewDecoder(r.Body).Decode\<close>
  fails, and the decoded entry otherwise (a missing field is the empty string).
\<close>

definition createEntryHTTP ::
  "write_result \<Rightarrow> TOTPEntry option \<Rightarrow> data_file \<Rightarrow> (fatal + http_response) \<times> data_file" where
  "createEntryHTTP w request f =
     (case request of
        None \<Rightarrow> (Inr (http_Error ''Invalid input'' 400), f)
      | Some entry \<Rightarrow>
          if Name entry = [] \<or> Secret entry = []
          then (Inr (http_Error ''Invalid input'' 400), f)
          else (case createEntry w (Name entry) (Secret entry) f of
                  (Inl e, f') \<Rightarrow> (Inl e, f')
                | (Inr printed, f') \<Rightarrow>
                    (Inr (http_OK (Text (''TOTP entry '' @ [CHR 0x27] @ Name entry @ [CHR 0x27] @
                                          '' created successfully.'' @ [CHR 0x0A]))),
                     f')))"

section \<open>Time\<close>

text \<open>
  A \<^verbatim>\<open>time.Time\<close> is modelled by its \<^verbatim>\<open>Unix()\<close> value, a signed number of seconds since the
  epoch. The remainder operator of Go truncates towards zero: the result has the sign of the
  dividend.
\<close>

definition go_rem :: "int \<Rightarrow> int \<Rightarrow> int" where
  "go_rem a b = sgn a * (\<bar>a\<bar> mod \<bar>b\<bar>)"

text \<open>\<^verbatim>\<open>remaining := 30 - (currentTime.Unix() % 30)\<close>, in \<^verbatim>\<open>getCode\<close>, \<^verbatim>\<open>getCodeHTTP\<close> and \<^verbatim>\<open>listEntries\<close>.\<close>

definition remaining :: "int \<Rightarrow> int" where
  "remaining unix = 30 - go_rem unix 30"

text \<open>The value of an \<^verbatim>\<open>int64\<close> computation, with the wrap-around written out.\<close>

definition wrap64 :: "int \<Rightarrow> int" where
  "wrap64 x = (x + 9223372036854775808) mod 18446744073709551616 - 9223372036854775808"

text \<open>
  A \<^verbatim>\<open>time.Time\<close> counts its seconds from the year 1 in an \<^verbatim>\<open>int64\<close>; the epoch is second
  \<open>unixToInternal\<close> of that count, and \<^verbatim>\<open>Unix()\<close> subtracts it again. Up to \<open>maxUnix\<close> the
  count of a Unix time does not wrap.
\<close>

definition unixToInternal :: int where
  "unixToInternal = 62135596800"

definition maxUnix :: int where
  "maxUnix = 9223372036854775807 - 62135596800"

text \<open>
  \<^verbatim>\<open>nextTime := currentTime.Add(time.Duration(remaining) * time.Second)\<close>, as the \<^verbatim>\<open>Unix()\<close>
  value of the result. The duration is positive and at most 59 seconds. \<^verbatim>\<open>Time.Add\<close> adds it
  to the seconds counted from the year 1, and stops at the largest \<^verbatim>\<open>int64\<close> when the sum
  would pass it.
\<close>

definition nextTime :: "int \<Rightarrow> int" where
  "nextTime unix =
     (let sum = wrap64 (unix + unixToInternal) + remaining unix
      in wrap64 ((if sum \<le> 9223372036854775807 then sum else 9223372036854775807)
                 - unixToInternal))"

section \<open>Deriving codes\<close>

datatype otp_error = DecodeError | KeyError

text \<open>
  The library call \<^verbatim>\<open>totp.GenerateCode(secret, t)\<close> is a parameter \<open>gen\<close> of the operations
  that derive a code: it returns a code or an error.
\<close>

type_synonym generate = "string \<Rightarrow> int \<Rightarrow> otp_error + string"

datatype code_output =
    CodeShown string int string   \<comment> \<open>the current code, the seconds remaining, the next code\<close>
  | NoEntry                       \<comment> \<open>\<^verbatim>\<open>No entry found with that name.\<close>\<close>

text \<open>The body of the loop of \<^verbatim>\<open>getCode\<close> for the entry whose name matches.\<close>

definition getCode_found :: "generate \<Rightarrow> TOTPEntry \<Rightarrow> int \<Rightarrow> fatal + code_output" where
  "getCode_found gen entry currentTime =
     (case gen (Secret entry) currentTime of
        Inl err \<Rightarrow> Inl (Fatal ''Error generating current TOTP code'')
      | Inr code \<Rightarrow>
          (case gen (Secret entry) (nextTime currentTime) of
             Inl err \<Rightarrow> Inl (Fatal ''Error generating next TOTP code'')
           | Inr nextCode \<Rightarrow> Inr (CodeShown code (remaining currentTime) nextCode)))"

fun getCode_loop :: "generate \<Rightarrow> string \<Rightarrow> int \<Rightarrow> TOTPEntry list \<Rightarrow> fatal + code_output" where
  "getCode_loop gen name currentTime [] = Inr NoEntry"
| "getCode_loop gen name currentTime (entry # rest) =
     (if Name entry = name then getCode_found gen entry currentTime
      else getCode_loop gen name currentTime rest)"

definition getCode :: "generate \<Rightarrow> string \<Rightarrow> int \<Rightarrow> data_file \<Rightarrow> fatal + code_output" where
  "getCode gen name currentTime f =
     (case loadData f of
        Inl e \<Rightarrow> Inl e
      | Inr data \<Rightarrow> getCode_loop gen name currentTime (Entries data))"

text \<open>
  \<^verbatim>\<open>getCodeHTTP\<close> reads the clock twice: \<open>now1\<close> for the code, \<open>now2\<close> for the seconds
  remaining.
\<close>

fun getCodeHTTP_loop :: "generate \<Rightarrow> string \<Rightarrow> int \<Rightarrow> int \<Rightarrow> TOTPEntry list \<Rightarrow> http_response" where
  "getCodeHTTP_loop gen name now1 now2 [] = http_Error ''No entry found with that name.'' 404"
| "getCodeHTTP_loop gen name now1 now2 (entry # rest) =
     (if Name entry = name
      then (case gen (Secret entry) now1 of
              Inl err \<Rightarrow> http_Error ''Error generating TOTP code'' 500
            | Inr code \<Rightarrow> http_OK (CodeJSON code (remaining now2)))
      else getCodeHTTP_loop gen name now1 now2 rest)"

definition getCodeHTTP :: "generate \<Rightarrow> string \<Rightarrow> int \<Rightarrow> int \<Rightarrow> data_file \<Rightarrow> fatal + http_response" where
  "getCodeHTTP gen name now1 now2 f =
     (case loadData f of
        Inl e \<Rightarrow> Inl e
      | Inr data \<Rightarrow> Inr (getCodeHTTP_loop gen name now1 now2 (Entries data)))"

section \<open>Runs of operations on the data file\<close>

text \<open>
  Each command-line call is a process of its own, and each request of the server runs one
  handler; the file is all that one operation leaves to the next.
\<close>

datatype store_op =
    Create write_result string string
  | Remove write_result string
  | CreateHTTP write_result "TOTPEntry option"
  | RemoveHTTP write_result string

fun apply_op :: "store_op \<Rightarrow> data_file \<Rightarrow> data_file" where
  "apply_op (Create w name secret) f = snd (createEntry w name secret f)"
| "apply_op (Remove w name) f = snd (removeEntry w name f)"
| "apply_op (CreateHTTP w request) f = snd (createEntryHTTP w request f)"
| "apply_op (RemoveHTTP w name) f = snd (removeEntryHTTP w name f)"

fun run_ops :: "store_op list \<Rightarrow> data_file \<Rightarrow> data_file" where
  "run_ops [] f = f"
| "run_ops (op # ops) f = run_ops ops (apply_op op f)"

definition unique_names :: "TOTPEntry list \<Rightarrow> bool" where
  "unique_names es = distinct (map Name es)"

text \<open>A data file is in order when the collection it loads to has pairwise different names.\<close>

definition file_unique :: "data_file \<Rightarrow> bool" where
  "file_unique f = (case loadData f of Inl e \<Rightarrow> True | Inr data \<Rightarrow> unique_names (Entries data))"

text \<open>The names that an operation brings in are valid UTF-8.\<close>

fun utf8_op :: "store_op \<Rightarrow> bool" where
  "utf8_op (Create w name secret) = (toValidUTF8 name = name)"
| "utf8_op (CreateHTTP w None) = True"
| "utf8_op (CreateHTTP w (Some entry)) = (toValidUTF8 (Name entry) = Name entry)"
| "utf8_op op = True"

fun utf8_ops :: "store_op list \<Rightarrow> bool" where
  "utf8_ops [] = True"
| "utf8_ops (op # ops) = (utf8_op op \<and> utf8_ops ops)"

section \<open>Two calls of createEntry at the same time\<close>

text \<open>
  The server runs each request in a goroutine of its own, and \<^verbatim>\<open>createEntry\<close> takes no lock.
  A call in progress has either not yet run \<^verbatim>\<open>loadData\<close>, or holds the collection it is
  about to pass to \<^verbatim>\<open>saveData\<close>, or has returned. One step of a call runs it up to its next
  access to the file.
\<close>

datatype call = Called string string | Holding TOTPData | Returned

fun call_step :: "write_result \<Rightarrow> call \<Rightarrow> data_file \<Rightarrow> (fatal + call) \<times> data_file" where
  "call_step w (Called name secret) f =
     (case loadData f of
        Inl e \<Rightarrow> (Inl e, f)
      | Inr data \<Rightarrow>
          if name_exists name (Entries data) then (Inr Returned, f)
          else (Inr (Holding (data\<lparr>Entries := Entries data @ [\<lparr>Name = name, Secret = secret\<rparr>]\<rparr>)), f))"
| "call_step w (Holding data) f =
     (case saveData w data f of
        (Inl e, f') \<Rightarrow> (Inl e, f')
      | (Inr u, f') \<Rightarrow> (Inr Returned, f'))"
| "call_step w Returned f = (Inr Returned, f)"

text \<open>
  A schedule says which of the two calls takes the next step (\<open>False\<close> the first, \<open>True\<close>
  the second); every write goes through. A \<^verbatim>\<open>log.Fatalf\<close> in either call ends the server.
\<close>

fun run_calls :: "bool list \<Rightarrow> call \<times> call \<times> data_file \<Rightarrow> fatal + call \<times> call \<times> data_file" where
  "run_calls [] s = Inr s"
| "run_calls (False # sched) (c1, c2, f) =
     (case call_step Written c1 f of
        (Inl e, f') \<Rightarrow> Inl e
      | (Inr c1', f') \<Rightarrow> run_calls sched (c1', c2, f'))"
| "run_calls (True # sched) (c1, c2, f) =
     (case call_step Written c2 f of
        (Inl e, f') \<Rightarrow> Inl e
      | (Inr c2', f') \<Rightarrow> run_calls sched (c1, c2', f'))"

section \<open>The passcode engine\<close>

type_synonym u8 = "8 word"
type_synonym u64 = "64 word"

text \<open>
  Modelled from the spec: the hash function SHA-1 that the HOTP engine of section 4.2 keys
  (the source calls it through \<^verbatim>\<open>github.com/pquerna/otp/totp\<close>, which is not part of the
  repository). 32-bit words are integers with the wrap-around written out.
\<close>

definition add32 :: "int \<Rightarrow> int \<Rightarrow> int" where
  "add32 a b = (a + b) mod 4294967296"

text \<open>Modelled from the spec: rotation to the left of a 32-bit word, for SHA-1.\<close>

definition rotl32 :: "nat \<Rightarrow> int \<Rightarrow> int" where
  "rotl32 n x = (x * 2 ^ n) mod 4294967296 + x div 2 ^ (32 - n)"

text \<open>Modelled from the spec: the complement of a 32-bit word, for SHA-1.\<close>

definition not32 :: "int \<Rightarrow> int" where
  "not32 x = 4294967295 - x"

text \<open>Modelled from the spec: the bytes of a SHA-1 block as big-endian 32-bit words.\<close>

fun be_words :: "int list \<Rightarrow> int list" where
  "be_words (a # b # c # d # rest) = (a * 16777216 + b * 65536 + c * 256 + d) # be_words rest"
| "be_words rest = []"

text \<open>Modelled from the spec: the four bytes of a 32-bit word, most significant first.\<close>

definition u32_bytes :: "int \<Rightarrow> int list" where
  "u32_bytes x = [x div 16777216, x div 65536 mod 256, x div 256 mod 256, x mod 256]"

text \<open>
  Modelled from the spec: the padding of SHA-1 (a one bit, zeros up to 56 modulo 64 bytes,
  the length in bits as a 64-bit big-endian number).
\<close>

definition sha1_pad :: "int list \<Rightarrow> int list" where
  "sha1_pad m = m @ [128] @ replicate ((119 - length m mod 64) mod 64) 0 @
     u32_bytes (8 * int (length m) div 4294967296 mod 4294967296) @
     u32_bytes (8 * int (length m) mod 4294967296)"

text \<open>
  Modelled from the spec: the message schedule of SHA-1. The list holds the words computed
  so far, the latest first.
\<close>

fun expand :: "nat \<Rightarrow> int list \<Rightarrow> int list" where
  "expand 0 r = r"
| "expand (Suc n) r = expand n (rotl32 1 (r ! 2 XOR r ! 7 XOR r ! 13 XOR r ! 15) # r)"

text \<open>Modelled from the spec: the round function of SHA-1.\<close>

definition sha1_f :: "nat \<Rightarrow> int \<Rightarrow> int \<Rightarrow> int \<Rightarrow> int" where
  "sha1_f t b c d =
     (if t < 20 then (b AND c) OR (not32 b AND d)
      else if t < 40 then b XOR c XOR d
      else if t < 60 then (b AND c) OR (b AND d) OR (c AND d)
      else b XOR c XOR d)"

text \<open>Modelled from the spec: the round constants of SHA-1.\<close>

definition sha1_k :: "nat \<Rightarrow> int" where
  "sha1_k t = (if t < 20 then 0x5A827999 else if t < 40 then 0x6ED9EBA1
               else if t < 60 then 0x8F1BBCDC else 0xCA62C1D6)"

type_synonym sha1_state = "int \<times> int \<times> int \<times> int \<times> int"

text \<open>Modelled from the spec: the eighty rounds of SHA-1 over the message schedule.\<close>

fun rounds :: "nat \<Rightarrow> int list \<Rightarrow> sha1_state \<Rightarrow> sha1_state" where
  "rounds t [] s = s"
| "rounds t (w # ws) (a, b, c, d, e) =
     rounds (Suc t) ws
       ((rotl32 5 a + sha1_f t b c d + e + sha1_k t + w) mod 4294967296, a, rotl32 30 b, c, d)"

text \<open>Modelled from the spec: the compression of one 64-byte block by SHA-1.\<close>

definition compress :: "sha1_state \<Rightarrow> int list \<Rightarrow> sha1_state" where
  "compress h block =
     (case h of (h0, h1, h2, h3, h4) \<Rightarrow>
        (case rounds 0 (rev (expand 64 (rev (be_words block)))) h of
           (a, b, c, d, e) \<Rightarrow> (add32 h0 a, add32 h1 b, add32 h2 c, add32 h3 d, add32 h4 e)))"

text \<open>Modelled from the spec: SHA-1 over the first \<open>n\<close> blocks of the padded message.\<close>

fun blocks :: "nat \<Rightarrow> sha1_state \<Rightarrow> int list \<Rightarrow> sha1_state" where
  "blocks 0 h bs = h"
| "blocks (Suc n) h bs = blocks n (compress h (take 64 bs)) (drop 64 bs)"

text \<open>Modelled from the spec: SHA-1, from bytes to the twenty bytes of the digest.\<close>

definition sha1 :: "int list \<Rightarrow> int list" where
  "sha1 m =
     (case blocks (length (sha1_pad m) div 64)
             (0x67452301, 0xEFCDAB89, 0x98BADCFE, 0x10325476, 0xC3D2E1F0) (sha1_pad m) of
        (a, b, c, d, e) \<Rightarrow> u32_bytes a @ u32_bytes b @ u32_bytes c @ u32_bytes d @ u32_bytes e)"

text \<open>
  Modelled from the spec: the HMAC of section 4.2, step 2, with SHA-1 (a key longer than a
  block is hashed, the key is padded with zeros to a block, the pads are 0x36 and 0x5c).
\<close>

definition hmac_sha1_int :: "int list \<Rightarrow> int list \<Rightarrow> int list" where
  "hmac_sha1_int key msg =
     (let k = (if length key > 64 then sha1 key else key);
          k' = k @ replicate (64 - length k) 0
      in sha1 (map (\<lambda>x. x XOR 0x5c) k' @ sha1 (map (\<lambda>x. x XOR 0x36) k' @ msg)))"

text \<open>Modelled from the spec: the HMAC of section 4.2 on byte sequences.\<close>

definition hmac_sha1 :: "u8 list \<Rightarrow> u8 list \<Rightarrow> u8 list" where
  "hmac_sha1 key msg = map word_of_int (hmac_sha1_int (map uint key) (map uint msg))"

text \<open>
  Modelled from the spec: section 4.2, step 1, the counter as 8 bytes, most significant byte
  first.
\<close>

definition u64_bytes :: "u64 \<Rightarrow> u8 list" where
  "u64_bytes x = [ucast (drop_bit 56 x), ucast (drop_bit 48 x), ucast (drop_bit 40 x),
     ucast (drop_bit 32 x), ucast (drop_bit 24 x), ucast (drop_bit 16 x), ucast (drop_bit 8 x),
     ucast x]"

text \<open>Modelled from the spec: the number that bytes denote, most significant byte first.\<close>

fun be_value :: "int \<Rightarrow> u8 list \<Rightarrow> int" where
  "be_value acc [] = acc"
| "be_value acc (b # bs) = be_value (acc * 256 + uint b) bs"

text \<open>
  Modelled from the spec: section 4.2, step 3, the dynamic truncation of the HMAC output to
  a 31-bit number.
\<close>

definition truncate31 :: "u8 list \<Rightarrow> int" where
  "truncate31 hm =
     (let offset = unat (last hm AND 0x0F)
      in uint (hm ! offset AND 0x7F) * 16777216 + uint (hm ! (offset + 1)) * 65536 +
         uint (hm ! (offset + 2)) * 256 + uint (hm ! (offset + 3)))"

text \<open>
  Modelled from the spec: section 4.2, step 4, the last \<open>k\<close> decimal digits of a number,
  with leading zeros.
\<close>

fun zero_padded :: "nat \<Rightarrow> int \<Rightarrow> string" where
  "zero_padded 0 n = []"
| "zero_padded (Suc k) n = zero_padded k (n div 10) @ [''0123456789'' ! nat (n mod 10)]"

text \<open>Modelled from the spec: the number that a string of decimal digits denotes.\<close>

fun decimal_value :: "int \<Rightarrow> string \<Rightarrow> int" where
  "decimal_value acc [] = acc"
| "decimal_value acc (c # cs) = decimal_value (acc * 10 + (of_char c - 48)) cs"

text \<open>Modelled from the spec: \<^verbatim>\<open>HOTPEngine.computeCode(keyBytes, counter, digits)\<close> of section 4.2.\<close>

definition computeCode :: "u8 list \<Rightarrow> u64 \<Rightarrow> nat \<Rightarrow> otp_error + string" where
  "computeCode keyBytes counter digits =
     (if keyBytes = [] then Inl KeyError
      else Inr (zero_padded digits
                  (truncate31 (hmac_sha1 keyBytes (u64_bytes counter)) mod 10 ^ digits)))"

text \<open>
  Modelled from the spec: the counter of section 4.3, \<open>floor (unixSeconds / 30)\<close>, as a
  64-bit number.
\<close>

definition counter_at :: "int \<Rightarrow> u64" where
  "counter_at unix = word_of_int (unix div 30)"

text \<open>Modelled from the spec: \<^verbatim>\<open>TOTPEngine.currentCode(keyBytes, atTime)\<close> of section 4.3.\<close>

definition currentCode :: "u8 list \<Rightarrow> int \<Rightarrow> otp_error + string" where
  "currentCode keyBytes unix = computeCode keyBytes (counter_at unix) 6"

text \<open>Modelled from the spec: the white space that the codec of section 4.1 ignores.\<close>

definition is_space :: "char \<Rightarrow> bool" where
  "is_space c = (c = CHR '' '' \<or> c = CHR 0x09 \<or> c = CHR 0x0A \<or> c = CHR 0x0D)"

text \<open>Modelled from the spec: upper-casing, for the codec of section 4.1.\<close>

definition upper :: "char \<Rightarrow> char" where
  "upper c = (let n = (of_char c :: int) in if 97 \<le> n \<and> n \<le> 122 then char_of (n - 32) else c)"

text \<open>
  Modelled from the spec: the normalisation of section 4.1 (upper-casing, padding and white
  space removed).
\<close>

definition clean :: "string \<Rightarrow> string" where
  "clean s = filter (\<lambda>c. c \<noteq> CHR ''='' \<and> \<not> is_space c) (map upper s)"

text \<open>Modelled from the spec: the base32 alphabet of section 4.1, A to Z and 2 to 7.\<close>

definition b32_value :: "char \<Rightarrow> int option" where
  "b32_value c = (let n = (of_char c :: int) in
     if 65 \<le> n \<and> n \<le> 90 then Some (n - 65)
     else if 50 \<le> n \<and> n \<le> 55 then Some (n - 24)
     else None)"

text \<open>Modelled from the spec: the values of the characters, if all are of the alphabet.\<close>

fun b32_values :: "string \<Rightarrow> int list option" where
  "b32_values [] = Some []"
| "b32_values (c # cs) =
     (case b32_value c of
        None \<Rightarrow> None
      | Some v \<Rightarrow> (case b32_values cs of None \<Rightarrow> None | Some vs \<Rightarrow> Some (v # vs)))"

text \<open>
  Modelled from the spec: the bytes of a sequence of 5-bit values, \<open>floor (5 * n / 8)\<close> of
  them; \<open>buf\<close> holds the \<open>nbits\<close> bits not yet given out.
\<close>

fun b32_bytes :: "int \<Rightarrow> nat \<Rightarrow> int list \<Rightarrow> u8 list" where
  "b32_bytes buf nbits [] = []"
| "b32_bytes buf nbits (v # vs) =
     (if nbits + 5 \<ge> 8
      then word_of_int ((buf * 32 + v) div 2 ^ (nbits + 5 - 8)) #
           b32_bytes ((buf * 32 + v) mod 2 ^ (nbits + 5 - 8)) (nbits + 5 - 8) vs
      else b32_bytes (buf * 32 + v) (nbits + 5) vs)"

text \<open>Modelled from the spec: \<^verbatim>\<open>Base32Codec\<close> of section 4.1, decoding a secret to key bytes.\<close>

definition decode :: "string \<Rightarrow> otp_error + u8 list" where
  "decode s =
     (case b32_values (clean s) of
        None \<Rightarrow> Inl DecodeError
      | Some vs \<Rightarrow> (if b32_bytes 0 0 vs = [] then Inl DecodeError else Inr (b32_bytes 0 0 vs)))"

text \<open>
  Modelled from the spec: the library call \<^verbatim>\<open>totp.GenerateCode(secret, t)\<close>, which is not part
  of the repository, as the codec of section 4.1 followed by \<^verbatim>\<open>currentCode\<close> of section 4.3.
\<close>

definition GenerateCode :: generate where
  "GenerateCode secret unix =
     (case decode secret of Inl e \<Rightarrow> Inl e | Inr keyBytes \<Rightarrow> currentCode keyBytes unix)"

text \<open>The key of the test vectors of RFC 4226, the ASCII text \<^verbatim>\<open>12345678901234567890\<close>.\<close>

definition rfc_key :: "u8 list" where
  "rfc_key = [0x31, 0x32, 0x33, 0x34, 0x35, 0x36, 0x37, 0x38, 0x39, 0x30,
              0x31, 0x32, 0x33, 0x34, 0x35, 0x36, 0x37, 0x38, 0x39, 0x30]"

section \<open>Properties: strings in the JSON file\<close>

lemma toValidUTF8_replacement:
  "toValidUTF8 (replacement @ s) = replacement @ toValidUTF8 s"
  by (simp add: replacement_def byte_in_def seq2_def seq3_def)

lemma toValidUTF8_idem: "toValidUTF8 (toValidUTF8 s) = toValidUTF8 s"
proof (induction s rule: toValidUTF8.induct)
  case 1
  show ?case by simp
next
  case (2 a s)
  show ?case
  proof (cases "byte_in 0 0x7F a")
    case True
    with 2 show ?thesis by simp
  next
    case ascii: False
    show ?thesis
    proof (cases s)
      case Nil
      with ascii show ?thesis
        using toValidUTF8_replacement [of "[]"] by simp
    next
      case s: (Cons b s1)
      show ?thesis
      proof (cases "seq2 a b")
        case True
        with ascii s 2 show ?thesis by simp
      next
        case two: False
        show ?thesis
        proof (cases s1)
          case Nil
          with ascii s two 2 show ?thesis
            by (simp add: toValidUTF8_replacement)
        next
          case s1: (Cons c s2)
          show ?thesis
          proof (cases "seq3 a b c")
            case True
            with ascii s two s1 2 show ?thesis by simp
          next
            case three: False
            show ?thesis
            proof (cases s2)
              case Nil
              with ascii s two s1 three 2 show ?thesis
                by (simp add: toValidUTF8_replacement)
            next
              case s2: (Cons d s3)
              show ?thesis
              proof (cases "seq4 a b c d")
                case True
                with ascii s two s1 three s2 2 show ?thesis by simp
              next
                case False
                with ascii s two s1 three s2 2 show ?thesis
                  by (simp add: toValidUTF8_replacement)
              qed
            qed
          qed
        qed
      qed
    qed
  qed
qed

lemma toValidUTF8_ascii:
  assumes "\<forall>c \<in> set s. byte_in 0 0x7F c"
  shows "toValidUTF8 s = s"
  using assms by (induction s) simp_all

lemma json_entry_idem: "json_entry (json_entry entry) = json_entry entry"
  by (simp add: json_entry_def toValidUTF8_idem)

lemma json_data_idem: "json_data (json_data data) = json_data data"
  by (simp add: json_data_def json_entry_idem)

lemma loadData_valid:
  assumes "loadData f = Inr data"
  shows "json_data data = data"
  using assms by (cases f) (auto simp add: json_data_def json_entry_idem)

lemma json_data_fixed:
  assumes "json_data data = data" and "entry \<in> set (Entries data)"
  shows "json_entry entry = entry"
proof -
  from assms(1) have "map json_entry (Entries data) = map (\<lambda>e. e) (Entries data)"
    by (cases data) (simp add: json_data_def)
  with assms(2) show ?thesis
    by (simp only: map_eq_conv)
qed

lemma json_data_filter:
  assumes "json_data data = data"
  shows "json_data (data\<lparr>Entries := filter P (Entries data)\<rparr>) =
    data\<lparr>Entries := filter P (Entries data)\<rparr>"
proof -
  have "map json_entry (filter P (Entries data)) = filter P (Entries data)"
    by (rule map_idI) (simp add: json_data_fixed [OF assms])
  then show ?thesis
    by (cases data) (simp add: json_data_def)
qed

lemma json_data_append:
  assumes "json_data data = data"
  shows "json_data (data\<lparr>Entries := Entries data @ [entry]\<rparr>) =
    data\<lparr>Entries := Entries data @ [json_entry entry]\<rparr>"
proof -
  have "map json_entry (Entries data) = Entries data"
    by (rule map_idI) (simp add: json_data_fixed [OF assms])
  then show ?thesis
    by (cases data) (simp add: json_data_def)
qed

section \<open>Properties: removing an entry\<close>

lemma remove_loop_eq:
  "remove_loop name es (found, acc) =
     (found \<or> name \<in> Name ` set es, acc @ filter (\<lambda>entry. Name entry \<noteq> name) es)"
  by (induction es arbitrary: found acc) auto

lemma name_exists_iff: "name_exists name es \<longleftrightarrow> name \<in> Name ` set es"
  by (induction es) auto

lemma removeEntry_absent:
  assumes "loadData f = Inr data" and "name \<notin> Name ` set (Entries data)"
  shows "removeEntry w name f = (Inr (NoEntryFound name), f)"
  using assms by (simp add: removeEntry_def remove_loop_eq)

lemma removeEntry_present:
  assumes "loadData f = Inr data" and "name \<in> Name ` set (Entries data)"
  shows "removeEntry Written name f =
    (Inr (Removed name), Document (data\<lparr>Entries := filter (\<lambda>entry. Name entry \<noteq> name) (Entries data)\<rparr>))"
  using assms json_data_filter [OF loadData_valid [OF assms(1)]]
  by (simp add: removeEntry_def remove_loop_eq)

lemma removeEntryHTTP_absent:
  assumes "loadData f = Inr data" and "name \<notin> Name ` set (Entries data)"
  shows "removeEntryHTTP w name f =
    (Inr (http_Error ''No entry found with that name.'' 404), f)"
  using assms by (simp add: removeEntryHTTP_def remove_loop_eq)

lemma removeEntryHTTP_present:
  assumes "loadData f = Inr data" and "name \<in> Name ` set (Entries data)"
  shows "removeEntryHTTP Written name f =
    (Inr (http_OK (Text (''Entry '' @ [CHR 0x27] @ name @ [CHR 0x27] @ '' has been removed.'' @ [CHR 0x0A]))),
     Document (data\<lparr>Entries := filter (\<lambda>entry. Name entry \<noteq> name) (Entries data)\<rparr>))"
  using assms json_data_filter [OF loadData_valid [OF assms(1)]]
  by (simp add: removeEntryHTTP_def remove_loop_eq)

text \<open>
  Claim C5. Let the data file load to \<open>data\<close>. When no entry of \<open>data\<close> has exactly the name
  \<open>name\<close>, \<^verbatim>\<open>removeEntry\<close> reports that no entry was found and \<^verbatim>\<open>removeEntryHTTP\<close> answers 404,
  whatever the file system would do on a write, and the file is left as it was. Otherwise, when
  the write goes through, both report the removal and the file holds the entries of \<open>data\<close>
  whose name differs from \<open>name\<close>, in their former order, so that no entry with this name is
  left.
\<close>

theorem removeEntry_spec:
  assumes "loadData f = Inr data"
  shows "if name \<in> Name ` set (Entries data)
         then removeEntry Written name f =
                (Inr (Removed name),
                 Document (data\<lparr>Entries := filter (\<lambda>entry. Name entry \<noteq> name) (Entries data)\<rparr>)) \<and>
              removeEntryHTTP Written name f =
                (Inr (http_OK (Text (''Entry '' @ [CHR 0x27] @ name @ [CHR 0x27] @
                                      '' has been removed.'' @ [CHR 0x0A]))),
                 Document (data\<lparr>Entries := filter (\<lambda>entry. Name entry \<noteq> name) (Entries data)\<rparr>)) \<and>
              \<not> name_exists name (filter (\<lambda>entry. Name entry \<noteq> name) (Entries data))
         else removeEntry w name f = (Inr (NoEntryFound name), f) \<and>
              removeEntryHTTP w name f =
                (Inr (http_Error ''No entry found with that name.'' 404), f)"
proof (cases "name \<in> Name ` set (Entries data)")
  case True
  have "\<not> name_exists name (filter (\<lambda>entry. Name entry \<noteq> name) (Entries data))"
    by (auto simp add: name_exists_iff)
  with True removeEntry_present [OF assms True] removeEntryHTTP_present [OF assms True]
  show ?thesis by simp
next
  case False
  with removeEntry_absent [OF assms False] removeEntryHTTP_absent [OF assms False]
  show ?thesis by simp
qed

theorem removeEntry_spec_witness:
  "loadData (Document \<lparr>Entries = [\<lparr>Name = ''a'', Secret = ''S1''\<rparr>, \<lparr>Name = ''b'', Secret = ''S2''\<rparr>,
       \<lparr>Name = ''c'', Secret = ''S3''\<rparr>]\<rparr>)
     = Inr \<lparr>Entries = [\<lparr>Name = ''a'', Secret = ''S1''\<rparr>, \<lparr>Name = ''b'', Secret = ''S2''\<rparr>,
       \<lparr>Name = ''c'', Secret = ''S3''\<rparr>]\<rparr> \<and>
   removeEntry Written ''b'' (Document \<lparr>Entries = [\<lparr>Name = ''a'', Secret = ''S1''\<rparr>,
       \<lparr>Name = ''b'', Secret = ''S2''\<rparr>, \<lparr>Name = ''c'', Secret = ''S3''\<rparr>]\<rparr>)
     = (Inr (Removed ''b''),
        Document \<lparr>Entries = [\<lparr>Name = ''a'', Secret = ''S1''\<rparr>, \<lparr>Name = ''c'', Secret = ''S3''\<rparr>]\<rparr>) \<and>
   removeEntry Written ''B'' (Document \<lparr>Entries = [\<lparr>Name = ''a'', Secret = ''S1''\<rparr>,
       \<lparr>Name = ''b'', Secret = ''S2''\<rparr>, \<lparr>Name = ''c'', Secret = ''S3''\<rparr>]\<rparr>)
     = (Inr (NoEntryFound ''B''),
        Document \<lparr>Entries = [\<lparr>Name = ''a'', Secret = ''S1''\<rparr>, \<lparr>Name = ''b'', Secret = ''S2''\<rparr>,
          \<lparr>Name = ''c'', Secret = ''S3''\<rparr>]\<rparr>)"
  using removeEntry_spec [of "Document \<lparr>Entries = [\<lparr>Name = ''a'', Secret = ''S1''\<rparr>,
       \<lparr>Name = ''b'', Secret = ''S2''\<rparr>, \<lparr>Name = ''c'', Secret = ''S3''\<rparr>]\<rparr>"
     "\<lparr>Entries = [\<lparr>Name = ''a'', Secret = ''S1''\<rparr>, \<lparr>Name = ''b'', Secret = ''S2''\<rparr>,
       \<lparr>Name = ''c'', Secret = ''S3''\<rparr>]\<rparr>" "''b''"]
    removeEntry_spec [of "Document \<lparr>Entries = [\<lparr>Name = ''a'', Secret = ''S1''\<rparr>,
       \<lparr>Name = ''b'', Secret = ''S2''\<rparr>, \<lparr>Name = ''c'', Secret = ''S3''\<rparr>]\<rparr>"
     "\<lparr>Entries = [\<lparr>Name = ''a'', Secret = ''S1''\<rparr>, \<lparr>Name = ''b'', Secret = ''S2''\<rparr>,
       \<lparr>Name = ''c'', Secret = ''S3''\<rparr>]\<rparr>" "''B''" Written]
  by (simp add: json_data_def json_entry_def byte_in_def)

section \<open>Properties: creating an entry\<close>

lemma createEntry_duplicate:
  assumes "loadData f = Inr data" and "name_exists name (Entries data)"
  shows "createEntry w name secret f = (Inr ''Entry with this name already exists.'', f)"
  using assms by (simp add: createEntry_def)

lemma createEntry_fresh:
  assumes "loadData f = Inr data" and "\<not> name_exists name (Entries data)"
  shows "createEntry Written name secret f =
    (Inr ''Entry created successfully!'',
     Document (data\<lparr>Entries := Entries data @
                 [\<lparr>Name = toValidUTF8 name, Secret = toValidUTF8 secret\<rparr>]\<rparr>))"
  using assms json_data_append [OF loadData_valid [OF assms(1)]]
  by (simp add: createEntry_def json_entry_def)

lemma loadData_after_append:
  assumes "loadData f = Inr data"
  shows "loadData (Document (data\<lparr>Entries := Entries data @ [json_entry entry]\<rparr>)) =
    Inr (data\<lparr>Entries := Entries data @ [json_entry entry]\<rparr>)"
proof -
  have "json_data (json_data (data\<lparr>Entries := Entries data @ [entry]\<rparr>)) =
      json_data (data\<lparr>Entries := Entries data @ [entry]\<rparr>)"
    by (rule json_data_idem)
  then show ?thesis
    by (simp add: json_data_append [OF loadData_valid [OF assms]])
qed

lemma getCodeHTTP_loop_last:
  assumes "\<not> name_exists name es" and "Name entry = name"
  shows "getCodeHTTP_loop gen name now1 now2 (es @ [entry]) =
    (case gen (Secret entry) now1 of
       Inl err \<Rightarrow> http_Error ''Error generating TOTP code'' 500
     | Inr code \<Rightarrow> http_OK (CodeJSON code (remaining now2)))"
  using assms by (induction es) (auto split: if_splits)

text \<open>
  Claim C4, evaluated where the code leaves it. The file holds an entry named a. The command
  line call of \<^verbatim>\<open>createEntry\<close> with this name prints that the entry exists and leaves the file
  as it is; the handler of POST /totps, on the same name, leaves the file as it is and answers
  with status 200 and the text that the entry was created.
\<close>

theorem createEntryHTTP_duplicate_status:
  "createEntry Written ''a'' ''S2'' (Document \<lparr>Entries = [\<lparr>Name = ''a'', Secret = ''S1''\<rparr>]\<rparr>) =
     (Inr ''Entry with this name already exists.'',
      Document \<lparr>Entries = [\<lparr>Name = ''a'', Secret = ''S1''\<rparr>]\<rparr>) \<and>
   createEntryHTTP Written (Some \<lparr>Name = ''a'', Secret = ''S2''\<rparr>)
       (Document \<lparr>Entries = [\<lparr>Name = ''a'', Secret = ''S1''\<rparr>]\<rparr>) =
     (Inr \<lparr>status = 200,
           body = Text (''TOTP entry '' @ [CHR 0x27] @ ''a'' @ [CHR 0x27] @
                        '' created successfully.'' @ [CHR 0x0A])\<rparr>,
      Document \<lparr>Entries = [\<lparr>Name = ''a'', Secret = ''S1''\<rparr>]\<rparr>)"
  by (simp add: createEntry_def createEntryHTTP_def http_OK_def json_data_def json_entry_def
        byte_in_def)

text \<open>
  Claim C6. Let the data file load to \<open>data\<close>, with no entry named \<open>name\<close>, and let the write
  go through. Then \<^verbatim>\<open>createEntry\<close> reports success and appends the entry, whatever the secret
  is: name and secret are stored as JSON writes them, that is as given when they are valid
  UTF-8, with U+FFFD for each other byte otherwise. For a non-empty name and secret the
  handler of POST /totps does the same with status 200. No step of either calls the code
  generator. When the generator later fails on the stored secret, the handler of
  GET /totps/name for the stored name, on the file just written, answers with status 500.
\<close>

theorem createEntry_accepts_any_secret:
  assumes "loadData f = Inr data" and "\<not> name_exists name (Entries data)"
  shows "createEntry Written name secret f =
           (Inr ''Entry created successfully!'',
            Document (data\<lparr>Entries := Entries data @
                        [\<lparr>Name = toValidUTF8 name, Secret = toValidUTF8 secret\<rparr>]\<rparr>)) \<and>
         (name \<noteq> [] \<and> secret \<noteq> [] \<longrightarrow>
            createEntryHTTP Written (Some \<lparr>Name = name, Secret = secret\<rparr>) f =
              (Inr (http_OK (Text (''TOTP entry '' @ [CHR 0x27] @ name @ [CHR 0x27] @
                                    '' created successfully.'' @ [CHR 0x0A]))),
               Document (data\<lparr>Entries := Entries data @
                           [\<lparr>Name = toValidUTF8 name, Secret = toValidUTF8 secret\<rparr>]\<rparr>))) \<and>
         (\<not> name_exists (toValidUTF8 name) (Entries data) \<and>
          gen (toValidUTF8 secret) now1 = Inl err \<longrightarrow>
            getCodeHTTP gen (toValidUTF8 name) now1 now2 (snd (createEntry Written name secret f)) =
              Inr (http_Error ''Error generating TOTP code'' 500)) \<and>
         (toValidUTF8 name = name \<and> toValidUTF8 secret = secret \<longrightarrow>
            snd (createEntry Written name secret f) =
              Document (data\<lparr>Entries := Entries data @ [\<lparr>Name = name, Secret = secret\<rparr>]\<rparr>))"
proof -
  let ?stored = "\<lparr>Name = toValidUTF8 name, Secret = toValidUTF8 secret\<rparr>"
  have fresh: "createEntry Written name secret f =
      (Inr ''Entry created successfully!'',
       Document (data\<lparr>Entries := Entries data @ [?stored]\<rparr>))"
    by (rule createEntry_fresh [OF assms])
  have post: "createEntryHTTP Written (Some \<lparr>Name = name, Secret = secret\<rparr>) f =
      (Inr (http_OK (Text (''TOTP entry '' @ [CHR 0x27] @ name @ [CHR 0x27] @
                            '' created successfully.'' @ [CHR 0x0A]))),
       Document (data\<lparr>Entries := Entries data @ [?stored]\<rparr>))"
    if "name \<noteq> []" and "secret \<noteq> []"
    using that by (simp add: createEntryHTTP_def fresh)
  have stored: "?stored = json_entry \<lparr>Name = name, Secret = secret\<rparr>"
    by (simp add: json_entry_def)
  have load: "loadData (Document (data\<lparr>Entries := Entries data @ [?stored]\<rparr>)) =
      Inr (data\<lparr>Entries := Entries data @ [?stored]\<rparr>)"
    unfolding stored by (rule loadData_after_append [OF assms(1)])
  have get: "getCodeHTTP gen (toValidUTF8 name) now1 now2 (snd (createEntry Written name secret f)) =
      Inr (http_Error ''Error generating TOTP code'' 500)"
    if "\<not> name_exists (toValidUTF8 name) (Entries data)" and "gen (toValidUTF8 secret) now1 = Inl err"
    unfolding fresh snd_conv getCodeHTTP_def load
    using that by (simp add: getCodeHTTP_loop_last)
  have verbatim: "snd (createEntry Written name secret f) =
      Document (data\<lparr>Entries := Entries data @ [\<lparr>Name = name, Secret = secret\<rparr>]\<rparr>)"
    if "toValidUTF8 name = name" and "toValidUTF8 secret = secret"
    using that by (simp add: fresh)
  from fresh post get verbatim show ?thesis by blast
qed

lemma decode_bang: "decode ''!'' = Inl DecodeError"
  by code_simp

theorem createEntry_accepts_any_secret_witness:
  "loadData NoFile = Inr \<lparr>Entries = []\<rparr> \<and> \<not> name_exists ''x'' [] \<and>
   ''x'' \<noteq> [] \<and> ''!'' \<noteq> [] \<and> toValidUTF8 ''x'' = ''x'' \<and> toValidUTF8 ''!'' = ''!'' \<and>
   GenerateCode ''!'' 59 = Inl DecodeError \<and>
   createEntry Written ''x'' ''!'' NoFile =
     (Inr ''Entry created successfully!'', Document \<lparr>Entries = [\<lparr>Name = ''x'', Secret = ''!''\<rparr>]\<rparr>) \<and>
   snd (createEntryHTTP Written (Some \<lparr>Name = ''x'', Secret = ''!''\<rparr>) NoFile) =
     Document \<lparr>Entries = [\<lparr>Name = ''x'', Secret = ''!''\<rparr>]\<rparr> \<and>
   getCodeHTTP GenerateCode ''x'' 59 60 (Document \<lparr>Entries = [\<lparr>Name = ''x'', Secret = ''!''\<rparr>]\<rparr>) =
     Inr (http_Error ''Error generating TOTP code'' 500)"
  using createEntry_accepts_any_secret [of NoFile "\<lparr>Entries = []\<rparr>" "''x''" "''!''" GenerateCode 59
      DecodeError 60]
  by (auto simp add: GenerateCode_def decode_bang byte_in_def)

section \<open>Properties: loading and saving\<close>

text \<open>
  Claim C7, as the code has it. \<^verbatim>\<open>loadData\<close> returns a collection in two cases only: the empty
  one when \<^verbatim>\<open>os.Stat\<close> finds no file, and the stored one when the file holds a document. When
  the file is there and cannot be opened, read or parsed, no value comes back: the outcome is
  the \<^verbatim>\<open>log.Fatalf\<close> that logs the error and ends the process.
\<close>

theorem loadData_outcomes:
  "(loadData f = Inr d) =
     (f = NoFile \<and> d = \<lparr>Entries = []\<rparr> \<or> (\<exists>stored. f = Document stored \<and> d = json_data stored)) \<and>
   isl (loadData f) = (f = OpenError \<or> f = ReadError \<or> f = Corrupt) \<and>
   loadData OpenError = Inl (Fatal ''Error reading data file'') \<and>
   loadData ReadError = Inl (Fatal ''Error reading file content'') \<and>
   loadData Corrupt = Inl (Fatal ''Error parsing data file'')"
  by (cases f) auto

theorem loadData_corrupt_is_fatal:
  "loadData Corrupt = Inl (Fatal ''Error parsing data file'')"
  by simp

text \<open>
  Claim C8, as the code has it. \<^verbatim>\<open>saveData\<close> writes the file in place. It reports success
  exactly when the write goes through, and the file is then the JSON text of the collection.
  Every failure ends the process. When the file cannot be opened for writing, the file is as
  before. When the write fails after the file was truncated, the file is corrupt. When the
  write is complete and closing the file fails, the file is the new JSON text.
\<close>

theorem saveData_outcomes:
  "(fst (saveData w data f) = Inr ()) = (w = Written) \<and>
   isl (fst (saveData w data f)) = (w \<noteq> Written) \<and>
   snd (saveData Written data f) = Document (json_data data) \<and>
   saveData OpenFailed data f = (Inl (Fatal ''Error writing data file''), f) \<and>
   saveData WriteFailed data f = (Inl (Fatal ''Error writing data file''), Corrupt) \<and>
   saveData CloseFailed data f = (Inl (Fatal ''Error writing data file''), Document (json_data data))"
  by (cases w) auto

theorem saveData_failure_loses_store:
  "saveData WriteFailed \<lparr>Entries = [\<lparr>Name = ''a'', Secret = ''S1''\<rparr>, \<lparr>Name = ''b'', Secret = ''S2''\<rparr>]\<rparr>
       (Document \<lparr>Entries = [\<lparr>Name = ''a'', Secret = ''S1''\<rparr>]\<rparr>) =
     (Inl (Fatal ''Error writing data file''), Corrupt) \<and>
   loadData Corrupt \<noteq> Inr \<lparr>Entries = [\<lparr>Name = ''a'', Secret = ''S1''\<rparr>]\<rparr>"
  by simp

section \<open>Properties: unique names\<close>

lemma unique_names_append:
  assumes "unique_names es" and "\<not> name_exists name es"
  shows "unique_names (es @ [\<lparr>Name = name, Secret = secret\<rparr>])"
  using assms by (simp add: unique_names_def name_exists_iff)

lemma unique_names_filter:
  assumes "unique_names es"
  shows "unique_names (filter (\<lambda>entry. Name entry \<noteq> name) es)"
  using assms by (simp add: unique_names_def distinct_map_filter)

lemma file_unique_Document:
  assumes "json_data data = data"
  shows "file_unique (Document data) = unique_names (Entries data)"
  using assms by (simp add: file_unique_def)

lemma saveData_unique:
  assumes "file_unique f" and "json_data data = data" and "unique_names (Entries data)"
  shows "file_unique (snd (saveData w data f))"
  using assms by (cases w) (simp_all add: file_unique_def)

lemma createEntry_unique:
  assumes "file_unique f" and "toValidUTF8 name = name"
  shows "file_unique (snd (createEntry w name secret f))"
proof (cases "loadData f")
  case (Inl e)
  with assms show ?thesis by (simp add: createEntry_def)
next
  case (Inr data)
  show ?thesis
  proof (cases "name_exists name (Entries data)")
    case True
    with Inr assms show ?thesis by (simp add: createEntry_def)
  next
    case False
    let ?stored = "data\<lparr>Entries := Entries data @ [json_entry \<lparr>Name = name, Secret = secret\<rparr>]\<rparr>"
    let ?d = "data\<lparr>Entries := Entries data @ [\<lparr>Name = name, Secret = secret\<rparr>]\<rparr>"
    have valid: "json_data data = data"
      by (rule loadData_valid [OF Inr])
    have stored: "json_data ?d = ?stored"
      by (rule json_data_append [OF valid])
    have fixed: "json_data ?stored = ?stored"
      using json_data_idem [of ?d] by (simp only: stored)
    from assms(1) Inr have "unique_names (Entries data)"
      by (simp add: file_unique_def)
    from unique_names_append [OF this False, of "toValidUTF8 secret"]
    have unique: "unique_names (Entries ?stored)"
      by (simp add: json_entry_def assms(2))
    have "file_unique (snd (saveData w ?d f))"
    proof (cases w)
      case Written
      with fixed unique show ?thesis by (simp add: stored file_unique_Document)
    next
      case OpenFailed
      with assms(1) show ?thesis by simp
    next
      case WriteFailed
      then show ?thesis by (simp add: file_unique_def)
    next
      case CloseFailed
      with fixed unique show ?thesis by (simp add: stored file_unique_Document)
    qed
    with Inr False show ?thesis
      by (auto simp add: createEntry_def split: prod.splits sum.splits)
  qed
qed

lemma remove_unique:
  assumes "file_unique f" and "loadData f = Inr data"
  shows "file_unique (snd (saveData w
    (data\<lparr>Entries := filter (\<lambda>entry. Name entry \<noteq> name) (Entries data)\<rparr>) f))"
proof -
  let ?d = "data\<lparr>Entries := filter (\<lambda>entry. Name entry \<noteq> name) (Entries data)\<rparr>"
  have valid: "json_data ?d = ?d"
    by (rule json_data_filter [OF loadData_valid [OF assms(2)]])
  from assms have "unique_names (Entries data)"
    by (simp add: file_unique_def)
  then have "unique_names (Entries ?d)"
    using unique_names_filter [of "Entries data" name] by simp
  with assms(1) valid show ?thesis
    by (rule saveData_unique)
qed

lemma removeEntry_unique:
  assumes "file_unique f"
  shows "file_unique (snd (removeEntry w name f))"
proof (cases "loadData f")
  case (Inl e)
  with assms show ?thesis by (simp add: removeEntry_def)
next
  case (Inr data)
  with remove_unique [OF assms Inr, of w name] assms show ?thesis
    by (auto simp add: removeEntry_def remove_loop_eq split: prod.splits sum.splits)
qed

lemma removeEntryHTTP_unique:
  assumes "file_unique f"
  shows "file_unique (snd (removeEntryHTTP w name f))"
proof (cases "loadData f")
  case (Inl e)
  with assms show ?thesis by (simp add: removeEntryHTTP_def)
next
  case (Inr data)
  with remove_unique [OF assms Inr, of w name] assms show ?thesis
    by (auto simp add: removeEntryHTTP_def remove_loop_eq split: prod.splits sum.splits)
qed

lemma createEntryHTTP_unique:
  assumes "file_unique f" and "utf8_op (CreateHTTP w request)"
  shows "file_unique (snd (createEntryHTTP w request f))"
proof (cases request)
  case None
  with assms show ?thesis by (simp add: createEntryHTTP_def)
next
  case (Some entry)
  with assms(2) have "toValidUTF8 (Name entry) = Name entry" by simp
  then have "file_unique (snd (createEntry w (Name entry) (Secret entry) f))"
    by (rule createEntry_unique [OF assms(1)])
  with Some assms show ?thesis
    by (auto simp add: createEntryHTTP_def split: prod.splits sum.splits)
qed

lemma apply_op_unique:
  assumes "file_unique f" and "utf8_op op"
  shows "file_unique (apply_op op f)"
  using assms
  by (cases op)
     (simp_all add: createEntry_unique removeEntry_unique createEntryHTTP_unique
        removeEntryHTTP_unique)

text \<open>
  What holds of the invariant: as long as every name that a creation brings in is valid
  UTF-8, every run of creations and removals, whatever the file system does on each write,
  takes a file in order to a file in order.
\<close>

lemma run_ops_unique:
  assumes "file_unique f" and "utf8_ops ops"
  shows "file_unique (run_ops ops f)"
  using assms by (induction ops arbitrary: f) (simp_all add: apply_op_unique)

text \<open>
  Claim C9, evaluated where the code leaves it. From the absent file, the command line
  creates an entry whose name is the single byte FF, then one whose name is the single byte
  FE. \<^verbatim>\<open>createEntry\<close> compares the bytes of the new name with the stored names, finds no entry
  named FE, and appends; \<^verbatim>\<open>saveData\<close> writes both names as U+FFFD. The file then loads to
  two entries with the same name.
\<close>

theorem createEntry_same_name_twice:
  "run_ops [Create Written [CHR 0xFF] ''S1'', Create Written [CHR 0xFE] ''S2''] NoFile =
     Document \<lparr>Entries = [\<lparr>Name = [CHR 0xEF, CHR 0xBF, CHR 0xBD], Secret = ''S1''\<rparr>,
                          \<lparr>Name = [CHR 0xEF, CHR 0xBF, CHR 0xBD], Secret = ''S2''\<rparr>]\<rparr> \<and>
   loadData (run_ops [Create Written [CHR 0xFF] ''S1'', Create Written [CHR 0xFE] ''S2''] NoFile) =
     Inr \<lparr>Entries = [\<lparr>Name = [CHR 0xEF, CHR 0xBF, CHR 0xBD], Secret = ''S1''\<rparr>,
                      \<lparr>Name = [CHR 0xEF, CHR 0xBF, CHR 0xBD], Secret = ''S2''\<rparr>]\<rparr> \<and>
   \<not> unique_names [\<lparr>Name = [CHR 0xEF, CHR 0xBF, CHR 0xBD], Secret = ''S1''\<rparr>,
                     \<lparr>Name = [CHR 0xEF, CHR 0xBF, CHR 0xBD], Secret = ''S2''\<rparr>] \<and>
   \<not> file_unique (run_ops [Create Written [CHR 0xFF] ''S1'', Create Written [CHR 0xFE] ''S2''] NoFile)"
  by (simp add: createEntry_def json_data_def json_entry_def byte_in_def seq2_def seq3_def
        replacement_def file_unique_def unique_names_def)

section \<open>Properties: two calls at the same time\<close>

lemma createEntry_call_steps:
  "snd (createEntry w name secret f) =
     (case call_step w (Called name secret) f of
        (Inl e, f') \<Rightarrow> f'
      | (Inr c, f') \<Rightarrow> snd (call_step w c f'))"
  by (simp add: createEntry_def split: sum.splits prod.splits)

lemma toValidUTF8_distinct:
  assumes "toValidUTF8 name1 \<noteq> toValidUTF8 name2"
  shows "toValidUTF8 name1 \<noteq> name2"
proof
  assume "toValidUTF8 name1 = name2"
  then have "toValidUTF8 (toValidUTF8 name1) = toValidUTF8 name2" by simp
  with assms show False by (simp add: toValidUTF8_idem)
qed

lemma serial_calls:
  assumes "loadData f = Inr \<lparr>Entries = []\<rparr>" and "toValidUTF8 name1 \<noteq> name2"
  shows "call_step Written (Called name1 secret1) f =
           (Inr (Holding \<lparr>Entries = [\<lparr>Name = name1, Secret = secret1\<rparr>]\<rparr>), f)"
    and "call_step Written (Holding \<lparr>Entries = [\<lparr>Name = name1, Secret = secret1\<rparr>]\<rparr>) f =
           (Inr Returned, Document \<lparr>Entries = [\<lparr>Name = toValidUTF8 name1, Secret = toValidUTF8 secret1\<rparr>]\<rparr>)"
    and "call_step Written (Called name2 secret2)
           (Document \<lparr>Entries = [\<lparr>Name = toValidUTF8 name1, Secret = toValidUTF8 secret1\<rparr>]\<rparr>) =
           (Inr (Holding \<lparr>Entries = [\<lparr>Name = toValidUTF8 name1, Secret = toValidUTF8 secret1\<rparr>,
                                     \<lparr>Name = name2, Secret = secret2\<rparr>]\<rparr>),
            Document \<lparr>Entries = [\<lparr>Name = toValidUTF8 name1, Secret = toValidUTF8 secret1\<rparr>]\<rparr>)"
    and "call_step Written
           (Holding \<lparr>Entries = [\<lparr>Name = toValidUTF8 name1, Secret = toValidUTF8 secret1\<rparr>,
                                \<lparr>Name = name2, Secret = secret2\<rparr>]\<rparr>) f' =
           (Inr Returned,
            Document \<lparr>Entries = [\<lparr>Name = toValidUTF8 name1, Secret = toValidUTF8 secret1\<rparr>,
                                 \<lparr>Name = toValidUTF8 name2, Secret = toValidUTF8 secret2\<rparr>]\<rparr>)"
  using assms by (simp_all add: json_data_def json_entry_def toValidUTF8_idem)

text \<open>
  Claim C10, as the code has it. \<^verbatim>\<open>createEntry\<close> takes no lock. Take two calls whose names
  are still different once JSON has written them (any two different names that are valid
  UTF-8), on a file that loads to the empty collection. When they run one after the other,
  each loading and saving before the other starts, the file holds both entries, in the order
  of the calls; this is what two calls of \<^verbatim>\<open>createEntry\<close> in a row leave.
\<close>

theorem createEntry_serial_keeps_both:
  assumes "loadData f = Inr \<lparr>Entries = []\<rparr>" and "toValidUTF8 name1 \<noteq> toValidUTF8 name2"
  shows "run_calls [False, False, True, True] (Called name1 secret1, Called name2 secret2, f) =
           Inr (Returned, Returned,
                Document \<lparr>Entries = [\<lparr>Name = toValidUTF8 name1, Secret = toValidUTF8 secret1\<rparr>,
                                     \<lparr>Name = toValidUTF8 name2, Secret = toValidUTF8 secret2\<rparr>]\<rparr>) \<and>
         run_calls [True, True, False, False] (Called name1 secret1, Called name2 secret2, f) =
           Inr (Returned, Returned,
                Document \<lparr>Entries = [\<lparr>Name = toValidUTF8 name2, Secret = toValidUTF8 secret2\<rparr>,
                                     \<lparr>Name = toValidUTF8 name1, Secret = toValidUTF8 secret1\<rparr>]\<rparr>) \<and>
         snd (createEntry Written name2 secret2 (snd (createEntry Written name1 secret1 f))) =
           Document \<lparr>Entries = [\<lparr>Name = toValidUTF8 name1, Secret = toValidUTF8 secret1\<rparr>,
                                \<lparr>Name = toValidUTF8 name2, Secret = toValidUTF8 secret2\<rparr>]\<rparr>"
proof -
  have d12: "toValidUTF8 name1 \<noteq> name2"
    by (rule toValidUTF8_distinct [OF assms(2)])
  have d21: "toValidUTF8 name2 \<noteq> name1"
    by (rule toValidUTF8_distinct) (use assms(2) in simp)
  note first = serial_calls [OF assms(1) d12]
  note second = serial_calls [OF assms(1) d21]
  have a: "run_calls [False, False, True, True] (Called name1 secret1, Called name2 secret2, f) =
           Inr (Returned, Returned,
                Document \<lparr>Entries = [\<lparr>Name = toValidUTF8 name1, Secret = toValidUTF8 secret1\<rparr>,
                                     \<lparr>Name = toValidUTF8 name2, Secret = toValidUTF8 secret2\<rparr>]\<rparr>)"
    by (simp only: run_calls.simps first prod.case sum.case)
  have b: "run_calls [True, True, False, False] (Called name1 secret1, Called name2 secret2, f) =
           Inr (Returned, Returned,
                Document \<lparr>Entries = [\<lparr>Name = toValidUTF8 name2, Secret = toValidUTF8 secret2\<rparr>,
                                     \<lparr>Name = toValidUTF8 name1, Secret = toValidUTF8 secret1\<rparr>]\<rparr>)"
    by (simp only: run_calls.simps second prod.case sum.case)
  have c: "snd (createEntry Written name2 secret2 (snd (createEntry Written name1 secret1 f))) =
           Document \<lparr>Entries = [\<lparr>Name = toValidUTF8 name1, Secret = toValidUTF8 secret1\<rparr>,
                                \<lparr>Name = toValidUTF8 name2, Secret = toValidUTF8 secret2\<rparr>]\<rparr>"
    by (simp only: createEntry_call_steps first prod.case sum.case snd_conv)
  from a b c show ?thesis by simp
qed

theorem createEntry_serial_keeps_both_witness:
  "loadData NoFile = Inr \<lparr>Entries = []\<rparr> \<and> loadData (Document \<lparr>Entries = []\<rparr>) = Inr \<lparr>Entries = []\<rparr> \<and>
   toValidUTF8 ''a'' \<noteq> toValidUTF8 ''b'' \<and>
   run_calls [False, False, True, True] (Called ''a'' ''S1'', Called ''b'' ''S2'', NoFile) =
     Inr (Returned, Returned,
          Document \<lparr>Entries = [\<lparr>Name = ''a'', Secret = ''S1''\<rparr>, \<lparr>Name = ''b'', Secret = ''S2''\<rparr>]\<rparr>) \<and>
   run_calls [False, False, True, True]
       (Called ''a'' ''S1'', Called ''b'' ''S2'', Document \<lparr>Entries = []\<rparr>) =
     Inr (Returned, Returned,
          Document \<lparr>Entries = [\<lparr>Name = ''a'', Secret = ''S1''\<rparr>, \<lparr>Name = ''b'', Secret = ''S2''\<rparr>]\<rparr>)"
  using createEntry_serial_keeps_both [of NoFile "''a''" "''b''" "''S1''" "''S2''"]
    createEntry_serial_keeps_both [of "Document \<lparr>Entries = []\<rparr>" "''a''" "''b''" "''S1''" "''S2''"]
  by (simp add: json_data_def byte_in_def)

theorem createEntry_interleaved_loses_update:
  "run_calls [False, True, False, True] (Called ''a'' ''S1'', Called ''b'' ''S2'', NoFile) =
     Inr (Returned, Returned, Document \<lparr>Entries = [\<lparr>Name = ''b'', Secret = ''S2''\<rparr>]\<rparr>)"
  by (simp add: json_data_def json_entry_def byte_in_def)

section \<open>Properties: time windows\<close>

lemma go_rem_nonneg:
  assumes "0 \<le> a"
  shows "go_rem a 30 = a mod 30"
  using assms by (cases "a = 0") (simp_all add: go_rem_def)

lemma remaining_nonneg:
  assumes "0 \<le> unix"
  shows "remaining unix = 30 - unix mod 30"
  using assms by (simp add: remaining_def go_rem_nonneg)

lemma wrap64_id:
  assumes "- 9223372036854775808 \<le> x" and "x \<le> 9223372036854775807"
  shows "wrap64 x = x"
  using assms by (simp add: wrap64_def)

lemma nextTime_exact:
  assumes "0 \<le> unix" and "unix + 30 \<le> maxUnix"
  shows "nextTime unix = unix + remaining unix"
proof -
  have r: "1 \<le> remaining unix" "remaining unix \<le> 30"
    using assms(1) by (simp_all add: remaining_nonneg)
  from assms have count: "wrap64 (unix + unixToInternal) = unix + unixToInternal"
    by (intro wrap64_id) (simp_all add: maxUnix_def unixToInternal_def)
  from assms r have fits: "unix + unixToInternal + remaining unix \<le> 9223372036854775807"
    by (simp add: maxUnix_def unixToInternal_def)
  from assms r have "wrap64 (unix + remaining unix) = unix + remaining unix"
    by (intro wrap64_id) (simp_all add: maxUnix_def)
  with count fits show ?thesis
    by (simp add: nextTime_def Let_def)
qed

lemma nextTime_nonneg:
  assumes "0 \<le> unix" and "unix + 30 \<le> maxUnix"
  shows "nextTime unix = 30 * (unix div 30 + 1)"
proof -
  have "unix = 30 * (unix div 30) + unix mod 30" by simp
  then show ?thesis
    using assms by (simp add: nextTime_exact remaining_nonneg algebra_simps)
qed

lemma counter_at_nextTime:
  assumes "0 \<le> unix" and "unix + 30 \<le> maxUnix"
  shows "counter_at (nextTime unix) = counter_at unix + 1"
  using assms by (simp add: nextTime_nonneg counter_at_def)

section \<open>Properties: truncation, digits and the counter bytes\<close>

lemma u8_and_bound: "uint ((x :: u8) AND m) \<le> uint m"
  by (rule word_and_le1 [THEN word_le_def [THEN iffD1]])

lemma uint_u8_bound: "uint (b :: u8) < 256"
  using uint_lt2p [of b] by simp

lemma truncate31_bounds: "0 \<le> truncate31 hm \<and> truncate31 hm < 2 ^ 31"
proof -
  define offset where "offset = unat (last hm AND 0x0F)"
  have a: "uint (hm ! offset AND 0x7F) \<le> 127"
    using u8_and_bound [of "hm ! offset" "0x7F"] by simp
  have b: "uint (hm ! (offset + 1)) < 256" "uint (hm ! (offset + 2)) < 256"
    "uint (hm ! (offset + 3)) < 256"
    by (rule uint_u8_bound)+
  have c: "0 \<le> uint (hm ! offset AND 0x7F)" "0 \<le> uint (hm ! (offset + 1))"
    "0 \<le> uint (hm ! (offset + 2))" "0 \<le> uint (hm ! (offset + 3))"
    by simp_all
  have "truncate31 hm = uint (hm ! offset AND 0x7F) * 16777216 + uint (hm ! (offset + 1)) * 65536 +
         uint (hm ! (offset + 2)) * 256 + uint (hm ! (offset + 3))"
    by (simp add: truncate31_def offset_def Let_def)
  with a b c show ?thesis by simp
qed

lemma truncate31_offset: "unat (last (hm :: u8 list) AND 0x0F) + 3 < 20"
proof -
  have "unat (last hm AND 0x0F) \<le> unat (0x0F :: u8)"
    by (rule word_and_le1 [THEN word_le_nat_alt [THEN iffD1]])
  then show ?thesis by simp
qed

lemma length_sha1: "length (sha1 m) = 20"
  by (simp add: sha1_def u32_bytes_def split: prod.splits)

lemma length_hmac_sha1: "length (hmac_sha1 key msg) = 20"
  by (simp add: hmac_sha1_def hmac_sha1_int_def Let_def length_sha1)

lemma length_zero_padded: "length (zero_padded k n) = k"
  by (induction k arbitrary: n) simp_all

lemma decimal_value_snoc:
  "decimal_value acc (cs @ [c]) = decimal_value acc cs * 10 + (of_char c - 48)"
  by (induction cs arbitrary: acc) simp_all

lemma digit_char_value:
  assumes "0 \<le> d" and "d < 10"
  shows "of_char (''0123456789'' ! nat d) - 48 = d"
proof -
  from assms have "d = 0 \<or> d = 1 \<or> d = 2 \<or> d = 3 \<or> d = 4 \<or> d = 5 \<or> d = 6 \<or> d = 7 \<or> d = 8 \<or> d = 9"
    by arith
  then show ?thesis by (elim disjE) (simp_all add: nth_Cons')
qed

lemma decimal_value_zero_padded:
  assumes "0 \<le> n"
  shows "decimal_value 0 (zero_padded k n) = n mod 10 ^ k"
  using assms
proof (induction k arbitrary: n)
  case 0
  then show ?case by simp
next
  case (Suc k)
  have d: "of_char (''0123456789'' ! nat (n mod 10)) - 48 = n mod 10"
    by (rule digit_char_value) simp_all
  from Suc.prems have "0 \<le> n div 10" by simp
  then have "decimal_value 0 (zero_padded k (n div 10)) = n div 10 mod 10 ^ k"
    by (rule Suc.IH)
  then have "decimal_value 0 (zero_padded (Suc k) n) = (n div 10 mod 10 ^ k) * 10 + n mod 10"
    using d by (simp only: zero_padded.simps decimal_value_snoc)
  also have "\<dots> = n mod 10 ^ Suc k"
    using zmod_zmult2_eq [of "10 ^ k" n 10] by simp
  finally show ?case .
qed

lemma zero_padded_digits: "set (zero_padded k n) \<subseteq> set ''0123456789''"
proof (induction k arbitrary: n)
  case 0
  then show ?case by simp
next
  case (Suc k)
  have "nat (n mod 10) < length ''0123456789''" by simp
  then have "''0123456789'' ! nat (n mod 10) \<in> set ''0123456789''"
    by (rule nth_mem)
  with Suc.IH [of "n div 10"] show ?case by simp
qed

lemma length_u64_bytes: "length (u64_bytes c) = 8"
  by (simp add: u64_bytes_def)

lemma uint_drop_bit_u64: "uint (drop_bit k (c :: u64)) = uint c div 2 ^ k"
proof -
  have "uint c mod 2 ^ 64 = uint c"
    using uint_lt2p [of c] by simp
  then show ?thesis
    by (simp only: unsigned_drop_bit_eq) (simp add: take_bit_eq_mod drop_bit_eq_div)
qed

lemma byte_step: "(x :: int) div 2 ^ (k + 8) * 256 + x div 2 ^ k mod 256 = x div 2 ^ k"
proof -
  have "x div 2 ^ (k + 8) = x div 2 ^ k div 256"
    by (simp add: power_add zdiv_zmult2_eq)
  then show ?thesis by simp
qed

lemma be_value_u64_bytes: "be_value 0 (u64_bytes c) = uint c"
proof -
  define y where "y k = uint c div 2 ^ k" for k
  define r where "r k = uint c div 2 ^ k mod 256" for k
  have "uint c < 2 ^ 64" using uint_lt2p [of c] by simp
  then have top: "r 56 = y 56"
    by (simp add: r_def y_def div_less_iff_less_mult pos_imp_zdiv_nonneg_iff)
  have step: "y (k + 8) * 256 + r k = y k" for k
    unfolding y_def r_def by (rule byte_step)
  have y0: "y 0 = uint c" by (simp add: y_def)
  have bytes: "u64_bytes c = map (\<lambda>k. word_of_int (r k)) [56, 48, 40, 32, 24, 16, 8, 0]"
    unfolding u64_bytes_def r_def
    by (simp add: word_eq_iff_unsigned [where ?'a = int] uint_drop_bit_u64 unsigned_ucast_eq
          unsigned_of_int take_bit_eq_mod)
  have small: "uint (word_of_int (r k) :: u8) = r k" for k
    by (simp add: r_def unsigned_of_int take_bit_eq_mod)
  have "be_value 0 (u64_bytes c) =
      ((((((r 56 * 256 + r 48) * 256 + r 40) * 256 + r 32) * 256 + r 24) * 256 + r 16) * 256 +
        r 8) * 256 + r 0"
    unfolding bytes by (simp only: list.map be_value.simps small) simp
  with top step [of 48] step [of 40] step [of 32] step [of 24] step [of 16] step [of 8]
    step [of 0] y0
  show ?thesis by simp
qed

section \<open>Properties: the reference values of RFC 4226\<close>

lemma hotp_rfc_0: "computeCode rfc_key 0 6 = Inr ''755224''"
  by code_simp

lemma hotp_rfc_1: "computeCode rfc_key 1 6 = Inr ''287082''"
  by code_simp

lemma hotp_rfc_2: "computeCode rfc_key 2 6 = Inr ''359152''"
  by code_simp

lemma hotp_rfc_3: "computeCode rfc_key 3 6 = Inr ''969429''"
  by code_simp

lemma hotp_rfc_4: "computeCode rfc_key 4 6 = Inr ''338314''"
  by code_simp

lemma hotp_rfc_5: "computeCode rfc_key 5 6 = Inr ''254676''"
  by code_simp

lemma hotp_rfc_6: "computeCode rfc_key 6 6 = Inr ''287922''"
  by code_simp

lemma hotp_rfc_7: "computeCode rfc_key 7 6 = Inr ''162583''"
  by code_simp

lemma hotp_rfc_8: "computeCode rfc_key 8 6 = Inr ''399871''"
  by code_simp

lemma hotp_rfc_9: "computeCode rfc_key 9 6 = Inr ''520489''"
  by code_simp

lemma rfc_key_nonempty: "rfc_key \<noteq> []"
  by (simp add: rfc_key_def)

lemma uint_counter_at:
  assumes "0 \<le> unix" and "unix < 2 ^ 63"
  shows "uint (counter_at unix) = unix div 30"
proof -
  from assms have "0 \<le> unix div 30" and "unix div 30 < 2 ^ 64"
    by (simp_all add: div_less_iff_less_mult pos_imp_zdiv_nonneg_iff)
  then show ?thesis
    by (simp add: counter_at_def unsigned_of_int take_bit_eq_mod)
qed

text \<open>
  Claim C1. For a non-empty key and a time with Unix seconds \<open>unix\<close>, \<^verbatim>\<open>currentCode\<close> is the
  HOTP value at the counter \<open>unix div 30\<close> (for times from the epoch on, read as a 64-bit
  number): the counter is 8 bytes that denote it most significant byte first; the HMAC output
  has 20 bytes, so the 4 bytes at the offset given by the low nibble of the last byte are in
  range; the truncated number is below \<open>2 ^ 31\<close>; the code is 6 characters, all decimal
  digits, and denotes that number modulo \<open>10 ^ 6\<close>. On the key and the counters 0 to 9 of
  RFC 4226, \<^verbatim>\<open>computeCode\<close> gives the published values.
\<close>

theorem currentCode_rfc4226:
  assumes "keyBytes \<noteq> []"
  shows "(let counter = counter_at unix;
              hm = hmac_sha1 keyBytes (u64_bytes counter);
              code = zero_padded 6 (truncate31 hm mod 10 ^ 6)
          in currentCode keyBytes unix = Inr code \<and>
             counter = word_of_int (unix div 30) \<and>
             (0 \<le> unix \<and> unix < 2 ^ 63 \<longrightarrow> uint counter = unix div 30) \<and>
             length (u64_bytes counter) = 8 \<and>
             be_value 0 (u64_bytes counter) = uint counter \<and>
             length hm = 20 \<and>
             unat (last hm AND 0x0F) + 3 < length hm \<and>
             0 \<le> truncate31 hm \<and> truncate31 hm < 2 ^ 31 \<and>
             length code = 6 \<and>
             set code \<subseteq> set ''0123456789'' \<and>
             decimal_value 0 code = truncate31 hm mod 10 ^ 6) \<and>
         map (\<lambda>counter. computeCode rfc_key counter 6) [0, 1, 2, 3, 4, 5, 6, 7, 8, 9] =
           map Inr [''755224'', ''287082'', ''359152'', ''969429'', ''338314'',
                    ''254676'', ''287922'', ''162583'', ''399871'', ''520489'']"
proof -
  define hm where "hm = hmac_sha1 keyBytes (u64_bytes (counter_at unix))"
  have code: "currentCode keyBytes unix = Inr (zero_padded 6 (truncate31 hm mod 10 ^ 6))"
    using assms by (simp add: currentCode_def computeCode_def hm_def)
  have len: "length hm = 20"
    by (simp add: hm_def length_hmac_sha1)
  have off: "unat (last hm AND 0x0F) + 3 < length hm"
    using truncate31_offset [of hm] by (simp add: len)
  have nonneg: "0 \<le> truncate31 hm mod 10 ^ 6"
    by simp
  have dec: "decimal_value 0 (zero_padded 6 (truncate31 hm mod 10 ^ 6)) = truncate31 hm mod 10 ^ 6"
    using decimal_value_zero_padded [OF nonneg, of 6] by simp
  have vectors: "map (\<lambda>counter. computeCode rfc_key counter 6) [0, 1, 2, 3, 4, 5, 6, 7, 8, 9] =
           map Inr [''755224'', ''287082'', ''359152'', ''969429'', ''338314'',
                    ''254676'', ''287922'', ''162583'', ''399871'', ''520489'']"
    by (simp only: list.map hotp_rfc_0 hotp_rfc_1 hotp_rfc_2 hotp_rfc_3 hotp_rfc_4 hotp_rfc_5
          hotp_rfc_6 hotp_rfc_7 hotp_rfc_8 hotp_rfc_9)
  show ?thesis
    unfolding Let_def hm_def [symmetric]
    using code len off dec vectors truncate31_bounds [of hm] uint_counter_at [of unix]
      length_u64_bytes [of "counter_at unix"] be_value_u64_bytes [of "counter_at unix"]
      length_zero_padded [of 6 "truncate31 hm mod 10 ^ 6"]
      zero_padded_digits [of 6 "truncate31 hm mod 10 ^ 6"]
    by (simp add: counter_at_def)
qed

theorem currentCode_rfc4226_witness:
  "rfc_key \<noteq> [] \<and> (0::int) \<le> 59 \<and> (59::int) < 2 ^ 63 \<and> currentCode rfc_key 59 = Inr ''287082''"
proof -
  have c: "counter_at 59 = 1" by (simp add: counter_at_def)
  from currentCode_rfc4226 [OF rfc_key_nonempty, of 59]
  have "currentCode rfc_key 59 =
      Inr (zero_padded 6 (truncate31 (hmac_sha1 rfc_key (u64_bytes 1)) mod 10 ^ 6))"
    unfolding Let_def c by (rule conjunct1 [OF conjunct1])
  also have "\<dots> = computeCode rfc_key 1 6"
    by (simp add: computeCode_def rfc_key_nonempty)
  finally show ?thesis
    by (simp add: hotp_rfc_1 rfc_key_nonempty)
qed

section \<open>Properties: the time window and the next code\<close>

text \<open>
  Claim C2. The time comes from \<^verbatim>\<open>time.Now()\<close>. For a time at or after the epoch, the seconds
  remaining are \<open>30 - unix mod 30\<close> and lie between 1 and 30. At a step boundary they are 30,
  the counter of \<^verbatim>\<open>currentCode\<close> is \<open>unix div 30\<close>, whose window starts at this very second,
  and the second before belonged to the counter before.
\<close>

theorem remaining_window:
  assumes "0 \<le> unix"
  shows "remaining unix = 30 - unix mod 30 \<and> 1 \<le> remaining unix \<and> remaining unix \<le> 30 \<and>
         (unix mod 30 = 0 \<longrightarrow>
            remaining unix = 30 \<and>
            30 * (unix div 30) = unix \<and>
            currentCode keyBytes unix = computeCode keyBytes (word_of_int (unix div 30)) 6 \<and>
            counter_at (unix - 1) = counter_at unix - 1)"
proof -
  have r: "remaining unix = 30 - unix mod 30"
    by (rule remaining_nonneg [OF assms])
  have range: "0 \<le> unix mod 30" "unix mod 30 < 30"
    by simp_all
  have boundary: "(unix - 1) div 30 = unix div 30 - 1" if "unix mod 30 = 0"
  proof -
    from that have "unix = 30 * (unix div 30)" by presburger
    then obtain q where q: "unix = 30 * q" ..
    have "(30 * q - 1) div 30 = q - 1" by presburger
    with q show ?thesis by simp
  qed
  have prev: "counter_at (unix - 1) = counter_at unix - 1" if "unix mod 30 = 0"
    using boundary [OF that] by (simp add: counter_at_def)
  from r range prev show ?thesis
    by (auto simp add: currentCode_def counter_at_def)
qed

theorem remaining_window_witness:
  "(0::int) \<le> 60 \<and> (60::int) mod 30 = 0 \<and> remaining 60 = 30 \<and> remaining 59 = 1 \<and>
   counter_at 59 = counter_at 60 - 1"
  using remaining_window [of 60 rfc_key] remaining_window [of 59 rfc_key] by simp

lemma acme_code_59: "GenerateCode ''JBSWY3DPEHPK3PXP'' 59 = Inr ''996554''"
  by code_simp

lemma acme_code_60: "GenerateCode ''JBSWY3DPEHPK3PXP'' 60 = Inr ''602287''"
  by code_simp

text \<open>
  Claim C3. The time comes from \<^verbatim>\<open>time.Now()\<close>. For a time at or after the epoch, and at
  least 30 seconds before the largest time, the next code that \<^verbatim>\<open>getCode\<close> shows is the code
  generated at \<open>nextTime\<close>, the current time plus the seconds remaining. This is the first
  second of the following window, so the counter is the current one plus one and
  \<^verbatim>\<open>currentCode\<close> at that time is the HOTP value of this counter.
\<close>

theorem nextCode_following_step:
  assumes "0 \<le> unix" and "unix + 30 \<le> maxUnix"
  shows "nextTime unix = unix + remaining unix \<and>
         (gen (Secret entry) unix = Inr code \<and> gen (Secret entry) (unix + remaining unix) = Inr nextCode \<longrightarrow>
            getCode_found gen entry unix = Inr (CodeShown code (remaining unix) nextCode)) \<and>
         nextTime unix = 30 * (unix div 30 + 1) \<and>
         counter_at (nextTime unix) = counter_at unix + 1 \<and>
         currentCode keyBytes (nextTime unix) = computeCode keyBytes (counter_at unix + 1) 6"
  using nextTime_nonneg [OF assms] counter_at_nextTime [OF assms] nextTime_exact [OF assms]
  by (auto simp add: currentCode_def getCode_found_def)

theorem nextCode_following_step_witness:
  "(0::int) \<le> 59 \<and> 59 + 30 \<le> maxUnix \<and> nextTime 59 = 60 \<and> remaining 59 = 1 \<and>
   counter_at 59 + 1 = 2 \<and>
   GenerateCode ''JBSWY3DPEHPK3PXP'' 59 = Inr ''996554'' \<and>
   GenerateCode ''JBSWY3DPEHPK3PXP'' (59 + remaining 59) = Inr ''602287'' \<and>
   getCode_found GenerateCode \<lparr>Name = ''acme'', Secret = ''JBSWY3DPEHPK3PXP''\<rparr> 59 =
     Inr (CodeShown ''996554'' 1 ''602287'') \<and>
   currentCode rfc_key (nextTime 59) = Inr ''359152''"
proof -
  have le: "(0::int) \<le> 59" by simp
  have room: "59 + 30 \<le> maxUnix" by (simp add: maxUnix_def)
  have c: "counter_at 59 + 1 = 2" by (simp add: counter_at_def)
  note w = nextCode_following_step [OF le room, where keyBytes = rfc_key and gen = GenerateCode
      and entry = "\<lparr>Name = ''acme'', Secret = ''JBSWY3DPEHPK3PXP''\<rparr>" and code = "''996554''"
      and nextCode = "''602287''"]
  from w have n: "nextTime 59 = 59 + remaining 59" by blast
  from w have m: "nextTime 59 = 30 * (59 div 30 + 1)" by blast
  from m have t: "nextTime 59 = 60" by simp
  with n have r: "remaining 59 = 1" by simp
  from w have "currentCode rfc_key (nextTime 59) = computeCode rfc_key (counter_at 59 + 1) 6"
    by blast
  then have k: "currentCode rfc_key (nextTime 59) = Inr ''359152''"
    by (simp only: c hotp_rfc_2)
  have next60: "GenerateCode ''JBSWY3DPEHPK3PXP'' (59 + remaining 59) = Inr ''602287''"
    by (simp add: r acme_code_60)
  have now: "GenerateCode (Secret \<lparr>Name = ''acme'', Secret = ''JBSWY3DPEHPK3PXP''\<rparr>) 59 =
      Inr ''996554''"
    by (simp add: acme_code_59)
  have later: "GenerateCode (Secret \<lparr>Name = ''acme'', Secret = ''JBSWY3DPEHPK3PXP''\<rparr>)
      (59 + remaining 59) = Inr ''602287''"
    by (simp add: next60)
  from w now later
  have g: "getCode_found GenerateCode \<lparr>Name = ''acme'', Secret = ''JBSWY3DPEHPK3PXP''\<rparr> 59 =
     Inr (CodeShown ''996554'' (remaining 59) ''602287'')"
    by blast
  from g t r c k acme_code_59 next60 room show ?thesis by simp
qed

end
